theory Spec2Isabelle
  imports Main
begin

section \<open>PyReshaper: the specification module (specification.py)\<close>

text \<open>
  The module holds a factory, \<open>create_specifier\<close>, an abstract base class
  \<open>Specifier\<close> and its one concrete subclass \<open>Slice2SeriesSpecifier\<close>.
  An instance is a bag of attributes that \<open>validate()\<close> checks and, for two
  of them, rewrites in place.
\<close>

subsection \<open>Python values and exceptions\<close>

text \<open>
  Attributes are dynamically typed, and the type checks of the module are about exactly
  that, so an attribute holds a \<open>pyval\<close>. \<open>PStr\<close> stands for the instances of
  \<open>str\<close> and \<open>PList\<close> for those of \<open>list\<close>; \<open>PNone\<close> and \<open>PInt\<close> are
  values that are neither.
\<close>

datatype pyval = PNone | PInt int | PStr string | PList "pyval list"

text \<open>The two exception classes the module raises, each with its message.\<close>

datatype exn = TypeError string | ValueError string

fun isinstance_str :: "pyval \<Rightarrow> bool" where
  "isinstance_str (PStr s) = True"
| "isinstance_str v = False"

fun isinstance_list :: "pyval \<Rightarrow> bool" where
  "isinstance_list (PList xs) = True"
| "isinstance_list v = False"

fun is_TypeError :: "exn \<Rightarrow> bool" where
  "is_TypeError (TypeError m) = True"
| "is_TypeError (ValueError m) = False"

subsection \<open>The operating system: os.path\<close>

text \<open>
  The module reads the file system through \<open>os.path.isfile\<close> and
  \<open>os.path.isdir\<close> and the working directory through \<open>os.path.abspath\<close>.
  The first two are predicates of the environment, defined on every string, and
  \<open>os.getcwd()\<close> is a string of the environment. The path functions are those of the standard library's
  \<open>posixpath\<close> (\<open>isabs\<close>, \<open>join\<close>, \<open>normpath\<close>, \<open>abspath\<close>,
  \<open>dirname\<close>), transcribed statement by statement.
\<close>

record os_env =
  isfile :: "string \<Rightarrow> bool"
  isdir :: "string \<Rightarrow> bool"
  getcwd :: string

text \<open>\<open>s.startswith('/')\<close>\<close>

fun isabs :: "string \<Rightarrow> bool" where
  "isabs [] = False"
| "isabs (c # cs) = (c = CHR ''/'')"

text \<open>\<open>s.endswith('/')\<close>\<close>

definition endswith_slash :: "string \<Rightarrow> bool" where
  "endswith_slash s = (s \<noteq> [] \<and> last s = CHR ''/'')"

text \<open>\<open>join(a, b)\<close> for one component \<open>b\<close>.\<close>

definition join :: "string \<Rightarrow> string \<Rightarrow> string" where
  "join a b =
     (if isabs b then b
      else if a = [] \<or> endswith_slash a then a @ b
      else a @ ''/'' @ b)"

text \<open>\<open>s.split('/')\<close>: always at least one piece.\<close>

fun split_slash :: "string \<Rightarrow> string list" where
  "split_slash [] = [[]]"
| "split_slash (c # cs) =
     (if c = CHR ''/'' then [] # split_slash cs
      else (case split_slash cs of
              [] \<Rightarrow> [[c]]
            | x # xs \<Rightarrow> (c # x) # xs))"

text \<open>\<open>'/'.join(comps)\<close>\<close>

fun join_slash :: "string list \<Rightarrow> string" where
  "join_slash [] = []"
| "join_slash [x] = x"
| "join_slash (x # y # ys) = x @ ''/'' @ join_slash (y # ys)"

text \<open>
  The number \<open>initial_slashes\<close> of \<open>normpath\<close>: 0 for a relative path, 2 for a
  path that starts with exactly two slashes, 1 for any other absolute path.
\<close>

fun initial_slashes :: "string \<Rightarrow> nat" where
  "initial_slashes (a # b # c # cs) =
     (if a = CHR ''/'' then (if b = CHR ''/'' \<and> c \<noteq> CHR ''/'' then 2 else 1) else 0)"
| "initial_slashes [a, b] =
     (if a = CHR ''/'' then (if b = CHR ''/'' then 2 else 1) else 0)"
| "initial_slashes [a] = (if a = CHR ''/'' then 1 else 0)"
| "initial_slashes [] = 0"

text \<open>
  The loop of \<open>normpath\<close> over the components, \<open>new_comps\<close> as the accumulator
  (appended to and popped at its end).
\<close>

fun normpath_loop :: "nat \<Rightarrow> string list \<Rightarrow> string list \<Rightarrow> string list" where
  "normpath_loop n new_comps [] = new_comps"
| "normpath_loop n new_comps (cmp # comps) =
     (if cmp = [] \<or> cmp = ''.'' then normpath_loop n new_comps comps
      else if cmp \<noteq> ''..'' \<or> (n = 0 \<and> new_comps = [])
              \<or> (new_comps \<noteq> [] \<and> last new_comps = ''..'')
        then normpath_loop n (new_comps @ [cmp]) comps
      else if new_comps \<noteq> [] then normpath_loop n (butlast new_comps) comps
      else normpath_loop n new_comps comps)"

definition normpath :: "string \<Rightarrow> string" where
  "normpath path =
     (if path = [] then ''.''
      else
        let n = initial_slashes path;
            comps = normpath_loop n [] (split_slash path);
            path' = replicate n (CHR ''/'') @ join_slash comps
        in if path' = [] then ''.'' else path')"

definition abspath :: "'a os_env_scheme \<Rightarrow> string \<Rightarrow> string" where
  "abspath env path =
     normpath (if \<not> isabs path then join (getcwd env) path else path)"

text \<open>
  \<open>dirname\<close>: the head is the path up to and including its last slash; trailing
  slashes are stripped from it unless it consists of slashes only.
\<close>

definition dirname :: "string \<Rightarrow> string" where
  "dirname p =
     (let head = rev (dropWhile (\<lambda>c. c \<noteq> CHR ''/'') (rev p))
      in if head \<noteq> [] \<and> head \<noteq> replicate (length head) (CHR ''/'')
         then rev (dropWhile (\<lambda>c. c = CHR ''/'') (rev head))
         else head)"

subsection \<open>The classes\<close>

text \<open>
  \<open>Specifier\<close> has three attributes; \<open>Slice2SeriesSpecifier\<close> inherits them and
  adds three.
\<close>

record specifier =
  specifier_type :: pyval
  input_file_list :: pyval
  netcdf_format :: pyval

record slice2series_specifier = specifier +
  output_file_prefix :: pyval
  output_file_suffix :: pyval
  time_variant_metadata :: pyval

text \<open>
  \<open>Specifier.__init__(self, infiles, ncfmt)\<close>: three assignments to \<open>self\<close>,
  in the order of the source.
\<close>

definition Specifier_init ::
  "'a specifier_scheme \<Rightarrow> pyval \<Rightarrow> pyval \<Rightarrow> 'a specifier_scheme" where
  "Specifier_init self infiles ncfmt =
     (let self = self\<lparr>specifier_type := PStr ''undetermined''\<rparr>;
          self = self\<lparr>input_file_list := infiles\<rparr>;
          self = self\<lparr>netcdf_format := ncfmt\<rparr>
      in self)"

text \<open>
  \<open>Slice2SeriesSpecifier.__init__(self, infiles, ncfmt, prefix, suffix, metadata)\<close>:
  the type string is assigned first, then the base class constructor runs, then the
  three attributes of the subclass are assigned.
\<close>

definition Slice2SeriesSpecifier_init ::
  "slice2series_specifier \<Rightarrow> pyval \<Rightarrow> pyval \<Rightarrow> pyval \<Rightarrow> pyval \<Rightarrow> pyval
     \<Rightarrow> slice2series_specifier" where
  "Slice2SeriesSpecifier_init self infiles ncfmt prefix suffix metadata =
     (let self = self\<lparr>specifier_type := PStr ''slice-to-series''\<rparr>;
          self = Specifier_init self infiles ncfmt;
          self = self\<lparr>output_file_prefix := prefix\<rparr>;
          self = self\<lparr>output_file_suffix := suffix\<rparr>;
          self = self\<lparr>time_variant_metadata := metadata\<rparr>
      in self)"

text \<open>
  A new instance has no attribute yet. The record needs a value in every field, so
  each starts as \<open>PNone\<close>; the constructor assigns all six before it returns.
\<close>

definition new_instance :: slice2series_specifier where
  "new_instance =
     \<lparr>specifier_type = PNone, input_file_list = PNone, netcdf_format = PNone,
      output_file_prefix = PNone, output_file_suffix = PNone,
      time_variant_metadata = PNone\<rparr>"

text \<open>
  The call \<open>Slice2SeriesSpecifier(**kwargs)\<close>. The keyword arguments are a
  dictionary from names to values, here the list of its items (the factory passes on
  a list only when its keys are distinct). Python binds them to
  the parameters of \<open>__init__\<close>: a keyword that names none of the five parameters
  makes the call raise a \<open>TypeError\<close> before the body runs (the interpreter's
  message, shortened here, also quotes the keyword), and a parameter with no keyword
  takes its default. The two default lists are values here: nothing in the module
  mutates a list.
\<close>

definition init_parameters :: "string list" where
  "init_parameters = [''infiles'', ''ncfmt'', ''prefix'', ''suffix'', ''metadata'']"

definition kwarg :: "(string \<times> pyval) list \<Rightarrow> string \<Rightarrow> pyval \<Rightarrow> pyval" where
  "kwarg kwargs name dflt = (case map_of kwargs name of None \<Rightarrow> dflt | Some v \<Rightarrow> v)"

definition Slice2SeriesSpecifier ::
  "(string \<times> pyval) list \<Rightarrow> exn + slice2series_specifier" where
  "Slice2SeriesSpecifier kwargs =
     (if list_ex (\<lambda>k. k \<notin> set init_parameters) (map fst kwargs)
      then Inl (TypeError ''__init__() got an unexpected keyword argument'')
      else Inr (Slice2SeriesSpecifier_init new_instance
             (kwarg kwargs ''infiles'' (PList []))
             (kwarg kwargs ''ncfmt'' (PStr ''netcdf4c''))
             (kwarg kwargs ''prefix'' (PStr ''tseries.''))
             (kwarg kwargs ''suffix'' (PStr ''.nc''))
             (kwarg kwargs ''metadata'' (PList []))))"

text \<open>
  The call \<open>create_specifier(spec_type, **kwargs)\<close> (lines 17 to 40):
  \<open>spec_type\<close> is the one positional argument and \<open>kwargs\<close> are the keyword
  arguments the caller writes, as a list of items.

  Python binds the arguments before the body runs. The positional argument binds the
  parameter \<open>spec_type\<close>, so a keyword of that name gives the parameter a second
  value, and a keyword that occurs twice gives its name two values: either makes the
  call raise a \<open>TypeError\<close> (the interpreter's message, shortened here, quotes the
  name). Otherwise the keyword arguments are the dictionary \<open>kwargs\<close> of the body,
  with distinct keys and without the key \<open>spec_type\<close>.

  In the body, the last branch of the case is the \<open>isinstance\<close> test, which the
  source makes first; in the other two \<open>spec_type\<close> is a string, and
  \<open>str(spec_type)\<close> is that string.
\<close>

definition create_specifier ::
  "pyval \<Rightarrow> (string \<times> pyval) list \<Rightarrow> exn + slice2series_specifier" where
  "create_specifier spec_type kwargs =
     (if \<not> distinct (map fst kwargs)
      then Inl (TypeError ''create_specifier() got multiple values for keyword argument'')
      else if ''spec_type'' \<in> set (map fst kwargs)
      then Inl (TypeError ''create_specifier() got multiple values for keyword argument'')
      else
        (case spec_type of
           PStr tag \<Rightarrow>
             if tag = ''slice-to-series'' then Slice2SeriesSpecifier kwargs
             else Inl (ValueError (''Specifier of type '' @ tag @ '' is not defined.''))
         | _ \<Rightarrow> Inl (TypeError ''Specification type must be given as a string.'')))"

subsection \<open>Validation\<close>

text \<open>
  \<open>Specifier.validate_types\<close> (lines 88 to 108). The loop over the file names is
  \<open>check_file_names\<close>. The method assigns nothing, so the model returns only
  whether it raises.
\<close>

fun check_file_names :: "pyval list \<Rightarrow> exn + unit" where
  "check_file_names [] = Inr ()"
| "check_file_names (ifile_name # rest) =
     (if \<not> isinstance_str ifile_name
      then Inl (TypeError ''Input file names must be given as strings'')
      else check_file_names rest)"

definition Specifier_validate_types :: "'a specifier_scheme \<Rightarrow> exn + unit" where
  "Specifier_validate_types self =
     (case input_file_list self of
        PList names \<Rightarrow>
          (case check_file_names names of
             Inl e \<Rightarrow> Inl e
           | Inr u \<Rightarrow>
               if \<not> isinstance_str (netcdf_format self)
               then Inl (TypeError ''NetCDF format must be given as a string'')
               else Inr ())
      | _ \<Rightarrow> Inl (TypeError ''Input file list must be a list''))"

text \<open>\<open>Slice2SeriesSpecifier.validate_types\<close> (lines 202 to 232).\<close>

fun check_var_names :: "pyval list \<Rightarrow> exn + unit" where
  "check_var_names [] = Inr ()"
| "check_var_names (var_name # rest) =
     (if \<not> isinstance_str var_name
      then Inl (TypeError ''Time-variant metadata variable names must be given as strings'')
      else check_var_names rest)"

definition Slice2SeriesSpecifier_validate_types :: "slice2series_specifier \<Rightarrow> exn + unit" where
  "Slice2SeriesSpecifier_validate_types self =
     (case Specifier_validate_types self of
        Inl e \<Rightarrow> Inl e
      | Inr u \<Rightarrow>
          if \<not> isinstance_str (output_file_prefix self)
          then Inl (TypeError ''Output file prefix must be given as a string'')
          else if \<not> isinstance_str (output_file_suffix self)
          then Inl (TypeError ''Output file suffix must be given as a string'')
          else (case time_variant_metadata self of
                  PList names \<Rightarrow> check_var_names names
                | _ \<Rightarrow> Inl (TypeError ''Input file list must be a list'')))"

text \<open>
  The value checks apply \<open>len\<close>, iteration, \<open>os.path\<close> and slicing to the
  attributes. \<open>validate()\<close> reaches them only after the type checks have passed, and
  the model describes them on the values the type checks let through: a list for
  \<open>len\<close> and the loops, a string for the path functions, the format test and the
  slice. On any other value the result is \<open>None\<close>, which says that the model does
  not describe the call (\<open>validate_modelled\<close> below shows that \<open>validate\<close> never
  gets there). \<open>Some\<close> carries what the call does: \<open>Inl\<close> the exception it
  raises, \<open>Inr ()\<close> a normal return.

  \<open>Specifier.validate_values\<close> (lines 110 to 140) assigns nothing.
\<close>

fun check_files_exist :: "'e os_env_scheme \<Rightarrow> pyval list \<Rightarrow> (exn + unit) option" where
  "check_files_exist env [] = Some (Inr ())"
| "check_files_exist env (ifile_name # rest) =
     (case ifile_name of
        PStr name \<Rightarrow>
          if \<not> isfile env name
          then Some (Inl (ValueError (''Input file '' @ name @ '' is not a regular file'')))
          else check_files_exist env rest
      | _ \<Rightarrow> None)"

definition valid_formats :: "string list" where
  "valid_formats = [''netcdf'', ''netcdf4'', ''netcdf4c'']"

definition Specifier_validate_values ::
  "'e os_env_scheme \<Rightarrow> 'a specifier_scheme \<Rightarrow> (exn + unit) option" where
  "Specifier_validate_values env self =
     (case input_file_list self of
        PList names \<Rightarrow>
          if length names = 0
          then Some (Inl (ValueError ''There must be at least one input file given.''))
          else (case check_files_exist env names of
                  None \<Rightarrow> None
                | Some (Inl e) \<Rightarrow> Some (Inl e)
                | Some (Inr u) \<Rightarrow>
                    (case netcdf_format self of
                       PStr fmt \<Rightarrow>
                         if fmt \<notin> set valid_formats
                         then Some (Inl (ValueError
                                (''Output NetCDF file format '' @ fmt @ '' is not valid'')))
                         else Some (Inr ())
                     | _ \<Rightarrow> None))
      | _ \<Rightarrow> None)"

text \<open>
  \<open>Slice2SeriesSpecifier.validate_values\<close> (lines 234 to 264) assigns to
  \<open>output_file_prefix\<close> and \<open>output_file_suffix\<close>, so the model returns the
  instance as the call leaves it, also when it raises. \<open>suffix[-3:]\<close> is the last
  three characters of the suffix, all of it when it is shorter.
\<close>

definition last3 :: "string \<Rightarrow> string" where
  "last3 s = drop (length s - 3) s"

definition Slice2SeriesSpecifier_validate_values ::
  "'e os_env_scheme \<Rightarrow> slice2series_specifier
     \<Rightarrow> ((exn + unit) \<times> slice2series_specifier) option" where
  "Slice2SeriesSpecifier_validate_values env self =
     (case Specifier_validate_values env self of
        None \<Rightarrow> None
      | Some (Inl e) \<Rightarrow> Some (Inl e, self)
      | Some (Inr u) \<Rightarrow>
          (case output_file_prefix self of
             PStr prefix \<Rightarrow>
               let abs_output_prefix = abspath env prefix;
                   abs_output_dir = dirname abs_output_prefix
               in if \<not> isdir env abs_output_dir
                  then Some (Inl (ValueError
                         (''Output directory '' @ abs_output_dir
                            @ '' implied in output prefix '' @ prefix @ '' is not valid'')),
                       self)
                  else
                    let self = self\<lparr>output_file_prefix := PStr abs_output_prefix\<rparr>
                    in (case output_file_suffix self of
                          PStr suffix \<Rightarrow>
                            if last3 suffix \<noteq> ''.nc''
                            then Some (Inr (),
                                   self\<lparr>output_file_suffix := PStr (suffix @ ''.nc'')\<rparr>)
                            else Some (Inr (), self)
                        | _ \<Rightarrow> None)
           | _ \<Rightarrow> None))"

text \<open>
  \<open>Specifier.validate\<close> (lines 77 to 86) on a \<open>Slice2SeriesSpecifier\<close>: the two
  calls dispatch to the methods of the subclass.
\<close>

definition validate ::
  "'e os_env_scheme \<Rightarrow> slice2series_specifier
     \<Rightarrow> ((exn + unit) \<times> slice2series_specifier) option" where
  "validate env self =
     (case Slice2SeriesSpecifier_validate_types self of
        Inl e \<Rightarrow> Some (Inl e, self)
      | Inr u \<Rightarrow> Slice2SeriesSpecifier_validate_values env self)"

subsection \<open>Vocabulary of the properties\<close>

text \<open>
  An instance is well typed when each attribute has the type its documentation gives
  it: the two lists are lists of strings, the other three are strings.
\<close>

fun str_list :: "pyval \<Rightarrow> bool" where
  "str_list (PList xs) = list_all isinstance_str xs"
| "str_list v = False"

definition well_typed :: "slice2series_specifier \<Rightarrow> bool" where
  "well_typed self =
     (str_list (input_file_list self) \<and> isinstance_str (netcdf_format self)
      \<and> isinstance_str (output_file_prefix self) \<and> isinstance_str (output_file_suffix self)
      \<and> str_list (time_variant_metadata self))"

text \<open>The first listed path that is not a regular file, if there is one.\<close>

definition first_missing :: "'e os_env_scheme \<Rightarrow> string list \<Rightarrow> string option" where
  "first_missing env names = find (\<lambda>name. \<not> isfile env name) names"

text \<open>
  A path component that \<open>normpath\<close> keeps as it is: not empty, not \<open>.\<close>, not
  \<open>..\<close>, and without a slash.
\<close>

definition plain :: "string \<Rightarrow> bool" where
  "plain c = (c \<noteq> [] \<and> c \<noteq> ''.'' \<and> c \<noteq> ''..'' \<and> CHR ''/'' \<notin> set c)"

text \<open>
  The instance after the two rewrites of \<open>validate_values\<close>, for a prefix \<open>p\<close> and
  a suffix \<open>sfx\<close>.
\<close>

definition normalised ::
  "'e os_env_scheme \<Rightarrow> slice2series_specifier \<Rightarrow> string \<Rightarrow> string
     \<Rightarrow> slice2series_specifier" where
  "normalised env s p sfx =
     s\<lparr>output_file_prefix := PStr (abspath env p),
       output_file_suffix := PStr (if last3 sfx \<noteq> ''.nc'' then sfx @ ''.nc'' else sfx)\<rparr>"

subsection \<open>A small file system and two instances\<close>

definition example_env :: os_env where
  "example_env =
     \<lparr>isfile = (\<lambda>p. p \<in> set [''/data/a.nc'', ''/data/b.nc'']),
      isdir = (\<lambda>p. p \<in> set [''/'', ''/data'', ''/home/user'', ''/home/user/relative'']),
      getcwd = ''/home/user''\<rparr>"

definition example_specifier :: slice2series_specifier where
  "example_specifier =
     \<lparr>specifier_type = PStr ''undetermined'',
      input_file_list = PList [PStr ''/data/a.nc'', PStr ''/data/b.nc''],
      netcdf_format = PStr ''netcdf4'',
      output_file_prefix = PStr ''relative/prefix_'',
      output_file_suffix = PStr ''out'',
      time_variant_metadata = PList [PStr ''time'']\<rparr>"

definition example_validated :: slice2series_specifier where
  "example_validated =
     example_specifier\<lparr>output_file_prefix := PStr ''/home/user/relative/prefix_'',
                        output_file_suffix := PStr ''out.nc''\<rparr>"

text \<open>Variants of the instance that fail one check each.\<close>

definition ill_typed_specifier :: slice2series_specifier where
  "ill_typed_specifier =
     example_specifier\<lparr>input_file_list := PInt 0,
                        output_file_prefix := PStr ''/nodir/prefix_''\<rparr>"

definition empty_list_specifier :: slice2series_specifier where
  "empty_list_specifier = example_specifier\<lparr>input_file_list := PList []\<rparr>"

definition missing_file_specifier :: slice2series_specifier where
  "missing_file_specifier =
     example_specifier\<lparr>input_file_list := PList [PStr ''/data/a.nc'', PStr ''/data/c.nc'']\<rparr>"

definition nodir_specifier :: slice2series_specifier where
  "nodir_specifier = example_specifier\<lparr>output_file_prefix := PStr ''/nodir/prefix_''\<rparr>"

section \<open>Properties\<close>

subsection \<open>The path functions\<close>

lemma split_slash_nonempty: "split_slash s \<noteq> []"
  by (induction s) (auto split: list.splits)

lemma split_slash_no_slash: "c \<in> set (split_slash s) \<Longrightarrow> CHR ''/'' \<notin> set c"
  by (induction s arbitrary: c) (auto split: if_splits list.splits)

lemma split_slash_append_no_slash:
  "CHR ''/'' \<notin> set x \<Longrightarrow> split_slash (x @ CHR ''/'' # s) = x # split_slash s"
  by (induction x) (auto split: list.splits)

lemma split_slash_no_slash_id:
  "CHR ''/'' \<notin> set x \<Longrightarrow> split_slash x = [x]"
  by (induction x) (auto split: list.splits)

lemma split_join_slash:
  "C \<noteq> [] \<Longrightarrow> \<forall>c \<in> set C. CHR ''/'' \<notin> set c \<Longrightarrow> split_slash (join_slash C) = C"
proof (induction C rule: join_slash.induct)
  case 1 then show ?case by simp
next
  case (2 x) then show ?case by (simp add: split_slash_no_slash_id)
next
  case (3 x y ys)
  then show ?case by (simp add: split_slash_append_no_slash)
qed

lemma loop_plain_append:
  "\<forall>c \<in> set C. plain c \<Longrightarrow> normpath_loop n acc C = acc @ C"
  by (induction C arbitrary: acc) (auto simp: plain_def)

lemma loop_abs_plain:
  "0 < n \<Longrightarrow> \<forall>c \<in> set acc. plain c \<Longrightarrow> \<forall>c \<in> set comps. CHR ''/'' \<notin> set c
     \<Longrightarrow> \<forall>c \<in> set (normpath_loop n acc comps). plain c"
proof (induction comps arbitrary: acc)
  case Nil then show ?case by simp
next
  case (Cons c comps)
  have rest: "\<forall>c \<in> set comps. CHR ''/'' \<notin> set c" using Cons.prems(3) by simp
  have noslash: "CHR ''/'' \<notin> set c" using Cons.prems(3) by simp
  have lastacc: "acc \<noteq> [] \<Longrightarrow> last acc \<noteq> ''..''"
    using Cons.prems(2) last_in_set[of acc] unfolding plain_def by blast
  have IH: "\<forall>c \<in> set acc'. plain c \<Longrightarrow> \<forall>c \<in> set (normpath_loop n acc' comps). plain c"
    for acc' using Cons.IH[OF Cons.prems(1) _ rest] .
  consider (skip) "c = [] \<or> c = ''.''" | (up) "c = ''..''"
    | (name) "c \<noteq> []" "c \<noteq> ''.''" "c \<noteq> ''..''" by blast
  then show ?case
  proof cases
    case skip
    then have eq: "normpath_loop n acc (c # comps) = normpath_loop n acc comps" by auto
    show ?thesis unfolding eq using Cons.prems(2) by (rule IH)
  next
    case up
    show ?thesis
    proof (cases "acc = []")
      case True
      then have eq: "normpath_loop n acc (c # comps) = normpath_loop n acc comps"
        using up Cons.prems(1) by simp
      show ?thesis unfolding eq using Cons.prems(2) by (rule IH)
    next
      case False
      then have eq: "normpath_loop n acc (c # comps) = normpath_loop n (butlast acc) comps"
        using up Cons.prems(1) lastacc by simp
      have "\<forall>c \<in> set (butlast acc). plain c"
        using Cons.prems(2) by (blast dest: in_set_butlastD)
      then show ?thesis unfolding eq by (rule IH)
    qed
  next
    case name
    then have eq: "normpath_loop n acc (c # comps) = normpath_loop n (acc @ [c]) comps"
      by simp
    have "plain c" using name noslash by (simp add: plain_def)
    then have "\<forall>d \<in> set (acc @ [c]). plain d" using Cons.prems(2) by simp
    then show ?thesis unfolding eq by (rule IH)
  qed
qed


lemma join_slash_plain_head:
  assumes "C \<noteq> []" "\<forall>c \<in> set C. plain c"
  obtains c cs where "join_slash C = c # cs" "c \<noteq> CHR ''/''"
proof -
  from assms obtain x xs where C: "C = x # xs" by (cases C) auto
  with assms(2) have "plain x" by simp
  then obtain c cs where x: "x = c # cs" and c: "c \<noteq> CHR ''/''"
    by (cases x) (auto simp: plain_def)
  have "join_slash C = c # (cs @ (case xs of [] \<Rightarrow> [] | y # ys \<Rightarrow> ''/'' @ join_slash xs))"
    unfolding C x by (cases xs) auto
  with c show thesis using that by blast
qed

lemma initial_slashes_abs: "isabs q \<Longrightarrow> initial_slashes q = 1 \<or> initial_slashes q = 2"
  by (cases q rule: initial_slashes.cases) auto

lemma initial_slashes_one:
  "c \<noteq> CHR ''/'' \<Longrightarrow> initial_slashes (CHR ''/'' # c # cs) = 1"
  by (cases cs) auto

lemma normpath_abs_form:
  assumes "isabs q"
  obtains k C where "k = 1 \<or> k = 2" "\<forall>c \<in> set C. plain c"
    "normpath q = replicate k (CHR ''/'') @ join_slash C"
proof -
  let ?n = "initial_slashes q"
  let ?C = "normpath_loop ?n [] (split_slash q)"
  have n: "?n = 1 \<or> ?n = 2" using assms by (rule initial_slashes_abs)
  then have pos: "0 < ?n" by auto
  have "\<forall>c \<in> set ?C. plain c"
    by (rule loop_abs_plain[OF pos]) (auto dest: split_slash_no_slash)
  moreover have "q \<noteq> []" using assms by auto
  then have "normpath q = replicate ?n (CHR ''/'') @ join_slash ?C"
    using pos by (auto simp: normpath_def Let_def)
  ultimately show thesis using n that by blast
qed

lemma normpath_fixed:
  assumes k: "k = 1 \<or> k = 2" and C: "\<forall>c \<in> set C. plain c"
  shows "normpath (replicate k (CHR ''/'') @ join_slash C) = replicate k (CHR ''/'') @ join_slash C"
proof -
  let ?r = "replicate k (CHR ''/'') @ join_slash C"
  have r: "?r \<noteq> []" using k by auto
  have tail: "join_slash C = [] \<or> (\<exists>c cs. join_slash C = c # cs \<and> c \<noteq> CHR ''/'')"
  proof (cases "C = []")
    case True then show ?thesis by simp
  next
    case False
    then show ?thesis using C join_slash_plain_head[of C] by metis
  qed
  have n: "initial_slashes ?r = k"
    using k tail by (auto simp: numeral_2_eq_2 initial_slashes_one)
  have noslash: "\<forall>c \<in> set C. CHR ''/'' \<notin> set c" using C by (simp add: plain_def)
  have loop: "normpath_loop k [] (split_slash ?r) = C"
  proof (cases "C = []")
    case True
    then show ?thesis using k by (auto simp: numeral_2_eq_2)
  next
    case False
    then have "split_slash (join_slash C) = C" using noslash by (rule split_join_slash)
    then have "normpath_loop k [] (split_slash ?r) = normpath_loop k [] C"
      using k by (auto simp: numeral_2_eq_2)
    then show ?thesis using C by (simp add: loop_plain_append)
  qed
  show ?thesis using r n loop by (simp add: normpath_def Let_def)
qed

lemma normpath_idem: "isabs q \<Longrightarrow> normpath (normpath q) = normpath q"
  by (erule normpath_abs_form) (simp add: normpath_fixed)

lemma isabs_normpath: "isabs q \<Longrightarrow> isabs (normpath q)"
  by (erule normpath_abs_form) (auto simp: numeral_2_eq_2)

lemma isabs_join: "isabs a \<Longrightarrow> isabs (join a b)"
  by (cases a) (auto simp: join_def)

lemma isabs_abspath: "isabs (getcwd env) \<Longrightarrow> isabs (abspath env p)"
  by (simp add: abspath_def isabs_normpath isabs_join)

lemma abspath_idem: "isabs (getcwd env) \<Longrightarrow> abspath env (abspath env p) = abspath env p"
  using isabs_abspath[of env p]
  by (simp add: abspath_def normpath_idem isabs_join)

subsection \<open>The type checks\<close>

lemma check_file_names_eq:
  "check_file_names xs =
     (if list_all isinstance_str xs then Inr ()
      else Inl (TypeError ''Input file names must be given as strings''))"
  by (induction xs) auto

lemma check_var_names_eq:
  "check_var_names xs =
     (if list_all isinstance_str xs then Inr ()
      else Inl (TypeError ''Time-variant metadata variable names must be given as strings''))"
  by (induction xs) auto

lemma validate_types_ok:
  "Slice2SeriesSpecifier_validate_types s = Inr () \<longleftrightarrow> well_typed s"
  by (cases "input_file_list s"; cases "time_variant_metadata s")
     (auto simp: Slice2SeriesSpecifier_validate_types_def Specifier_validate_types_def
        well_typed_def check_file_names_eq check_var_names_eq
        split: sum.splits pyval.splits)

lemma validate_types_err:
  "Slice2SeriesSpecifier_validate_types s = Inl e \<Longrightarrow> is_TypeError e"
  by (auto simp: Slice2SeriesSpecifier_validate_types_def Specifier_validate_types_def
        check_file_names_eq check_var_names_eq
        split: sum.splits pyval.splits if_splits)

lemma str_list_conv: "str_list v \<longleftrightarrow> (\<exists>names. v = PList (map PStr names))"
proof
  assume "str_list v"
  then obtain xs where v: "v = PList xs" and all: "list_all isinstance_str xs"
    by (cases v) auto
  have "\<exists>names. xs = map PStr names" using all
  proof (induction xs)
    case Nil then show ?case by simp
  next
    case (Cons x xs)
    then obtain names where "xs = map PStr names" by auto
    moreover from Cons.prems obtain n where "x = PStr n" by (cases x) auto
    ultimately have "x # xs = map PStr (n # names)" by simp
    then show ?case by (rule exI)
  qed
  with v show "\<exists>names. v = PList (map PStr names)" by blast
next
  assume "\<exists>names. v = PList (map PStr names)"
  then show "str_list v" by (auto simp: list_all_iff)
qed

lemma check_files_exist_strs:
  "check_files_exist env (map PStr names) =
     (case first_missing env names of
        None \<Rightarrow> Some (Inr ())
      | Some name \<Rightarrow> Some (Inl (ValueError (''Input file '' @ name @ '' is not a regular file''))))"
  by (induction names) (auto simp: first_missing_def)


lemma well_typed_fields:
  assumes "well_typed s"
  obtains names fmt p sfx meta where
    "input_file_list s = PList (map PStr names)" "netcdf_format s = PStr fmt"
    "output_file_prefix s = PStr p" "output_file_suffix s = PStr sfx"
    "time_variant_metadata s = PList (map PStr meta)"
proof -
  from assms obtain names meta where
    "input_file_list s = PList (map PStr names)"
    "time_variant_metadata s = PList (map PStr meta)"
    by (auto simp: well_typed_def str_list_conv)
  moreover from assms obtain fmt where "netcdf_format s = PStr fmt"
    by (cases "netcdf_format s") (auto simp: well_typed_def)
  moreover from assms obtain p where "output_file_prefix s = PStr p"
    by (cases "output_file_prefix s") (auto simp: well_typed_def)
  moreover from assms obtain sfx where "output_file_suffix s = PStr sfx"
    by (cases "output_file_suffix s") (auto simp: well_typed_def)
  ultimately show thesis using that by blast
qed

lemma base_values_typed:
  assumes "input_file_list s = PList (map PStr names)" "netcdf_format s = PStr fmt"
  shows "Specifier_validate_values env s =
     Some (if names = []
           then Inl (ValueError ''There must be at least one input file given.'')
           else case first_missing env names of
                  Some name \<Rightarrow>
                    Inl (ValueError (''Input file '' @ name @ '' is not a regular file''))
                | None \<Rightarrow>
                    if fmt \<notin> set valid_formats
                    then Inl (ValueError
                           (''Output NetCDF file format '' @ fmt @ '' is not valid''))
                    else Inr ())"
  using assms
  by (simp add: Specifier_validate_values_def check_files_exist_strs split: option.splits)

lemma validate_typed:
  assumes "well_typed s"
    and "input_file_list s = PList (map PStr names)" and "netcdf_format s = PStr fmt"
    and "output_file_prefix s = PStr p" and "output_file_suffix s = PStr sfx"
  shows "validate env s =
     Some (if names = []
           then (Inl (ValueError ''There must be at least one input file given.''), s)
           else case first_missing env names of
                  Some name \<Rightarrow>
                    (Inl (ValueError (''Input file '' @ name @ '' is not a regular file'')), s)
                | None \<Rightarrow>
                    if fmt \<notin> set valid_formats
                    then (Inl (ValueError
                           (''Output NetCDF file format '' @ fmt @ '' is not valid'')), s)
                    else if \<not> isdir env (dirname (abspath env p))
                    then (Inl (ValueError
                           (''Output directory '' @ dirname (abspath env p)
                            @ '' implied in output prefix '' @ p @ '' is not valid'')), s)
                    else (Inr (), normalised env s p sfx))"
proof -
  from assms(1) have "Slice2SeriesSpecifier_validate_types s = Inr ()"
    by (simp add: validate_types_ok)
  then show ?thesis
    using assms(2-)
    by (simp add: validate_def Slice2SeriesSpecifier_validate_values_def base_values_typed
        normalised_def Let_def split: option.splits)
qed

subsection \<open>The outcome of validate\<close>

lemma validate_ill_typed:
  assumes "\<not> well_typed s"
  obtains m where "validate env s = Some (Inl (TypeError m), s)"
proof -
  from assms have "Slice2SeriesSpecifier_validate_types s \<noteq> Inr ()"
    by (simp add: validate_types_ok)
  then obtain e where e: "Slice2SeriesSpecifier_validate_types s = Inl e"
    by (cases "Slice2SeriesSpecifier_validate_types s") auto
  then have "is_TypeError e" by (rule validate_types_err)
  then obtain m where "e = TypeError m" by (cases e) auto
  with e have "validate env s = Some (Inl (TypeError m), s)" by (simp add: validate_def)
  then show thesis by (rule that)
qed

lemma validate_raises_unchanged:
  "validate env s = Some (Inl e, s') \<Longrightarrow> s' = s"
proof (cases "well_typed s")
  case False
  assume "validate env s = Some (Inl e, s')"
  with validate_ill_typed[OF False, of env] show ?thesis by auto
next
  case True
  assume v: "validate env s = Some (Inl e, s')"
  from True obtain names fmt p sfx meta where
    f: "input_file_list s = PList (map PStr names)" "netcdf_format s = PStr fmt"
    "output_file_prefix s = PStr p" "output_file_suffix s = PStr sfx"
    by (rule well_typed_fields)
  show ?thesis
    using v unfolding validate_typed[OF True f]
    by (auto split: if_splits option.splits)
qed

lemma validate_modelled: "\<exists>r s'. validate env s = Some (r, s')"
proof (cases "well_typed s")
  case False
  with validate_ill_typed[of s env] show ?thesis by metis
next
  case True
  from True obtain names fmt p sfx meta where
    f: "input_file_list s = PList (map PStr names)" "netcdf_format s = PStr fmt"
    "output_file_prefix s = PStr p" "output_file_suffix s = PStr sfx"
    by (rule well_typed_fields)
  show ?thesis
    unfolding validate_typed[OF True f]
    by (auto split: if_splits option.splits)
qed

lemma validate_returns_typed:
  assumes "validate env s = Some (Inr (), s')"
  shows "well_typed s"
proof (rule ccontr)
  assume "\<not> well_typed s"
  then obtain m where "validate env s = Some (Inl (TypeError m), s)"
    by (rule validate_ill_typed)
  with assms show False by simp
qed

lemma validate_returns_normalised:
  assumes "validate env s = Some (Inr (), s')"
    and "output_file_prefix s = PStr p" and "output_file_suffix s = PStr sfx"
  shows "s' = normalised env s p sfx"
    and "isdir env (dirname (abspath env p))"
proof -
  have wt: "well_typed s" using assms(1) by (rule validate_returns_typed)
  then obtain names fmt p' sfx' meta where
    f: "input_file_list s = PList (map PStr names)" "netcdf_format s = PStr fmt"
    "output_file_prefix s = PStr p'" "output_file_suffix s = PStr sfx'"
    by (rule well_typed_fields)
  with assms(2,3) have [simp]: "p' = p" "sfx' = sfx" by simp_all
  show "s' = normalised env s p sfx"
    using assms(1) unfolding validate_typed[OF wt f]
    by (auto split: if_splits option.splits)
  show "isdir env (dirname (abspath env p))"
    using assms(1) unfolding validate_typed[OF wt f]
    by (auto split: if_splits option.splits)
qed

lemma last3_nc: "last3 s = ''.nc'' \<longleftrightarrow> (\<exists>t. s = t @ ''.nc'')"
proof
  assume "last3 s = ''.nc''"
  then have "s = take (length s - 3) s @ ''.nc''"
    unfolding last3_def by (metis append_take_drop_id)
  then show "\<exists>t. s = t @ ''.nc''" ..
next
  assume "\<exists>t. s = t @ ''.nc''"
  then show "last3 s = ''.nc''" by (auto simp: last3_def)
qed

subsection \<open>Evaluating validate on the examples\<close>

lemma example_abspath:
  "abspath example_env ''relative/prefix_'' = ''/home/user/relative/prefix_''"
  by code_simp

lemma example_dirname:
  "dirname (abspath example_env ''relative/prefix_'') = ''/home/user/relative''"
  by code_simp

lemma example_validate:
  "validate example_env example_specifier = Some (Inr (), example_validated)"
  by code_simp

lemma example_validate_again:
  "validate example_env example_validated = Some (Inr (), example_validated)"
  by code_simp

lemma ill_typed_validate:
  "validate example_env ill_typed_specifier
     = Some (Inl (TypeError ''Input file list must be a list''), ill_typed_specifier)"
  by code_simp

lemma nodir: "\<not> isdir example_env (dirname (abspath example_env ''/nodir/prefix_''))"
  by code_simp

lemma empty_list_validate:
  "validate example_env empty_list_specifier
     = Some (Inl (ValueError ''There must be at least one input file given.''),
             empty_list_specifier)"
  by code_simp

lemma nodir_validate:
  "validate example_env nodir_specifier
     = Some (Inl (ValueError
          ''Output directory /nodir implied in output prefix /nodir/prefix_ is not valid''),
        nodir_specifier)"
  by code_simp

section \<open>The claims\<close>

subsection \<open>Construction\<close>

lemma init_type_undetermined:
  "specifier_type (Slice2SeriesSpecifier_init self infiles ncfmt prefix suffix metadata)
     = PStr ''undetermined''"
  by (simp add: Slice2SeriesSpecifier_init_def Specifier_init_def)

text \<open>
  Claim C1: \<open>create_specifier("slice-to-series")\<close> returns an instance whose
  \<open>specifier_type\<close> is \<open>"slice-to-series"\<close>. The constructor of the subclass
  assigns that string first and then calls the constructor of the base class, which
  assigns \<open>"undetermined"\<close> to the same attribute; this holds for every argument of
  the constructor (\<open>init_type_undetermined\<close>). Evaluated with no keyword argument,
  the factory returns an instance whose type string is \<open>"undetermined"\<close>.
\<close>

theorem create_specifier_type_undetermined:
  "create_specifier (PStr ''slice-to-series'') [] =
     Inr \<lparr>specifier_type = PStr ''undetermined'', input_file_list = PList [],
          netcdf_format = PStr ''netcdf4c'', output_file_prefix = PStr ''tseries.'',
          output_file_suffix = PStr ''.nc'', time_variant_metadata = PList []\<rparr>"
  by (simp add: create_specifier_def Slice2SeriesSpecifier_def Slice2SeriesSpecifier_init_def
      Specifier_init_def new_instance_def kwarg_def)

text \<open>
  Claim C2, as amended: \<open>create_specifier(spec_type, **kwargs)\<close> raises a
  \<open>TypeError\<close> if and only if \<open>spec_type\<close> is not a string, or the keyword
  arguments do not bind (a keyword is repeated or is \<open>spec_type\<close> itself), or
  \<open>spec_type\<close> is \<open>"slice-to-series"\<close> and some keyword is not a parameter of
  the constructor (the call of the constructor then raises it). When the keyword
  arguments bind, a string other than \<open>"slice-to-series"\<close> raises a
  \<open>ValueError\<close>, and \<open>"slice-to-series"\<close> with keywords that are all
  parameters of the constructor returns the instance the constructor builds from the
  keyword arguments and the defaults.
\<close>

theorem create_specifier_cases:
  "((\<exists>m. create_specifier spec_type kwargs = Inl (TypeError m)) \<longleftrightarrow>
      (\<not> isinstance_str spec_type
       \<or> \<not> distinct (map fst kwargs)
       \<or> ''spec_type'' \<in> set (map fst kwargs)
       \<or> (spec_type = PStr ''slice-to-series''
          \<and> list_ex (\<lambda>k. k \<notin> set init_parameters) (map fst kwargs))))
   \<and> (\<forall>tag. spec_type = PStr tag \<and> tag \<noteq> ''slice-to-series''
          \<and> distinct (map fst kwargs) \<and> ''spec_type'' \<notin> set (map fst kwargs) \<longrightarrow>
         create_specifier spec_type kwargs
           = Inl (ValueError (''Specifier of type '' @ tag @ '' is not defined.'')))
   \<and> (spec_type = PStr ''slice-to-series'' \<and> distinct (map fst kwargs)
        \<and> list_all (\<lambda>k. k \<in> set init_parameters) (map fst kwargs) \<longrightarrow>
         create_specifier spec_type kwargs
           = Inr (Slice2SeriesSpecifier_init new_instance
                   (kwarg kwargs ''infiles'' (PList []))
                   (kwarg kwargs ''ncfmt'' (PStr ''netcdf4c''))
                   (kwarg kwargs ''prefix'' (PStr ''tseries.''))
                   (kwarg kwargs ''suffix'' (PStr ''.nc''))
                   (kwarg kwargs ''metadata'' (PList []))))"
proof -
  have params: "''spec_type'' \<notin> set init_parameters"
    by (simp add: init_parameters_def)
  have type_error: "(\<exists>m. create_specifier spec_type kwargs = Inl (TypeError m)) \<longleftrightarrow>
      (\<not> isinstance_str spec_type
       \<or> \<not> distinct (map fst kwargs)
       \<or> ''spec_type'' \<in> set (map fst kwargs)
       \<or> (spec_type = PStr ''slice-to-series''
          \<and> list_ex (\<lambda>k. k \<notin> set init_parameters) (map fst kwargs)))"
    by (cases spec_type)
       (auto simp: create_specifier_def Slice2SeriesSpecifier_def list_ex_iff)
  have value_error: "create_specifier spec_type kwargs
           = Inl (ValueError (''Specifier of type '' @ tag @ '' is not defined.''))"
    if "spec_type = PStr tag" "tag \<noteq> ''slice-to-series''"
      "distinct (map fst kwargs)" "''spec_type'' \<notin> set (map fst kwargs)" for tag
    using that by (simp add: create_specifier_def)
  have returns: "create_specifier spec_type kwargs
           = Inr (Slice2SeriesSpecifier_init new_instance
                   (kwarg kwargs ''infiles'' (PList []))
                   (kwarg kwargs ''ncfmt'' (PStr ''netcdf4c''))
                   (kwarg kwargs ''prefix'' (PStr ''tseries.''))
                   (kwarg kwargs ''suffix'' (PStr ''.nc''))
                   (kwarg kwargs ''metadata'' (PList [])))"
    if s: "spec_type = PStr ''slice-to-series''" and d: "distinct (map fst kwargs)"
      and a: "list_all (\<lambda>k. k \<in> set init_parameters) (map fst kwargs)"
  proof -
    from a params have "''spec_type'' \<notin> set (map fst kwargs)"
      unfolding list_all_iff by blast
    moreover from a have "\<not> list_ex (\<lambda>k. k \<notin> set init_parameters) (map fst kwargs)"
      unfolding list_all_iff list_ex_iff by blast
    ultimately show ?thesis
      using s d by (simp add: create_specifier_def Slice2SeriesSpecifier_def)
  qed
  from type_error value_error returns show ?thesis by blast
qed

theorem create_specifier_cases_witness:
  "(\<exists>m. create_specifier (PInt 123) [] = Inl (TypeError m))
   \<and> (\<exists>m. create_specifier (PStr ''unknown'') [(''spec_type'', PStr ''x'')]
          = Inl (TypeError m))
   \<and> create_specifier (PStr ''unknown'') []
       = Inl (ValueError ''Specifier of type unknown is not defined.'')
   \<and> create_specifier (PStr ''slice-to-series'') [(''suffix'', PStr ''out'')]
       = Inr (Slice2SeriesSpecifier_init new_instance (PList []) (PStr ''netcdf4c'')
               (PStr ''tseries.'') (PStr ''out'') (PList []))"
  using create_specifier_cases [of "PInt 123" "[]"]
    create_specifier_cases [of "PStr ''unknown''" "[(''spec_type'', PStr ''x'')]"]
    create_specifier_cases [of "PStr ''unknown''" "[]"]
    create_specifier_cases [of "PStr ''slice-to-series''" "[(''suffix'', PStr ''out'')]"]
  by (simp add: init_parameters_def kwarg_def)

text \<open>
  Claim C2 as first stated has a \<open>TypeError\<close> only for a \<open>spec_type\<close> that is
  not a string. With the string \<open>"slice-to-series"\<close> and the one keyword
  \<open>bogus\<close>, which binds, the factory raises a \<open>TypeError\<close> too.
\<close>

theorem create_specifier_unexpected_keyword:
  "isinstance_str (PStr ''slice-to-series'')
   \<and> create_specifier (PStr ''slice-to-series'') [(''bogus'', PInt 1)]
       = Inl (TypeError ''__init__() got an unexpected keyword argument'')"
  by (simp add: create_specifier_def Slice2SeriesSpecifier_def init_parameters_def)

subsection \<open>Validation: which exception\<close>

text \<open>
  Claim C3: when \<open>input_file_list\<close> is a non-empty list of strings that each name
  an existing regular file, \<open>netcdf_format\<close> is one of \<open>"netcdf"\<close>,
  \<open>"netcdf4"\<close>, \<open>"netcdf4c"\<close>, \<open>output_file_prefix\<close> is a string whose
  absolute path has an existing parent directory, \<open>output_file_suffix\<close> is a string
  and \<open>time_variant_metadata\<close> is a list of strings, \<open>validate()\<close> returns
  without raising.
\<close>

theorem validate_accepts_valid:
  assumes "input_file_list s = PList (map PStr names)" and "names \<noteq> []"
    and "\<forall>name \<in> set names. isfile env name"
    and "netcdf_format s = PStr fmt"
    and "fmt \<in> {''netcdf'', ''netcdf4'', ''netcdf4c''}"
    and "output_file_prefix s = PStr p" and "isdir env (dirname (abspath env p))"
    and "output_file_suffix s = PStr sfx"
    and "time_variant_metadata s = PList (map PStr meta)"
  shows "\<exists>s'. validate env s = Some (Inr (), s')"
proof -
  have wt: "well_typed s"
    using assms by (simp add: well_typed_def list_all_iff)
  have "first_missing env names = None"
    using assms(3) by (simp add: first_missing_def find_None_iff)
  moreover have "fmt \<in> set valid_formats" using assms(5) by (auto simp: valid_formats_def)
  ultimately show ?thesis
    using assms(2,7)
    by (simp add: validate_typed[OF wt assms(1,4,6,8)])
qed

theorem validate_accepts_valid_witness:
  "\<exists>s'. validate example_env example_specifier = Some (Inr (), s')"
  using validate_accepts_valid [of example_specifier "[''/data/a.nc'', ''/data/b.nc'']"
      example_env "''netcdf4''" "''relative/prefix_''" "''out''" "[''time'']"]
  by (simp add: example_specifier_def example_dirname) (simp add: example_env_def)

text \<open>
  Claim C4: \<open>validate()\<close> raises a \<open>TypeError\<close> if and only if
  \<open>input_file_list\<close> is not a list, or one of its elements is not a string, or
  \<open>netcdf_format\<close> is not a string, or \<open>output_file_prefix\<close> or
  \<open>output_file_suffix\<close> is not a string, or \<open>time_variant_metadata\<close> is not a
  list, or one of its elements is not a string. The type checks come first: whenever
  \<open>validate()\<close> raises a \<open>ValueError\<close>, the instance is well typed.
\<close>

theorem validate_type_error_iff:
  "((\<exists>m s'. validate env s = Some (Inl (TypeError m), s')) \<longleftrightarrow>
      (\<not> isinstance_list (input_file_list s)
       \<or> (\<exists>names. input_file_list s = PList names \<and> list_ex (\<lambda>x. \<not> isinstance_str x) names)
       \<or> \<not> isinstance_str (netcdf_format s)
       \<or> \<not> isinstance_str (output_file_prefix s)
       \<or> \<not> isinstance_str (output_file_suffix s)
       \<or> \<not> isinstance_list (time_variant_metadata s)
       \<or> (\<exists>names. time_variant_metadata s = PList names
              \<and> list_ex (\<lambda>x. \<not> isinstance_str x) names)))
   \<and> ((\<exists>m s'. validate env s = Some (Inl (ValueError m), s')) \<longrightarrow> well_typed s)"
proof -
  have typed: "well_typed s \<longleftrightarrow>
      \<not> (\<not> isinstance_list (input_file_list s)
       \<or> (\<exists>names. input_file_list s = PList names \<and> list_ex (\<lambda>x. \<not> isinstance_str x) names)
       \<or> \<not> isinstance_str (netcdf_format s)
       \<or> \<not> isinstance_str (output_file_prefix s)
       \<or> \<not> isinstance_str (output_file_suffix s)
       \<or> \<not> isinstance_list (time_variant_metadata s)
       \<or> (\<exists>names. time_variant_metadata s = PList names
              \<and> list_ex (\<lambda>x. \<not> isinstance_str x) names))"
    by (cases "input_file_list s"; cases "time_variant_metadata s")
       (auto simp: well_typed_def list_all_iff list_ex_iff)
  have ill: "\<exists>m s'. validate env s = Some (Inl (TypeError m), s')" if "\<not> well_typed s"
    using validate_ill_typed[OF that, of env] by metis
  have well: "\<not> (\<exists>m s'. validate env s = Some (Inl (TypeError m), s'))" if wt: "well_typed s"
  proof -
    from wt obtain names fmt p sfx meta where
      f: "input_file_list s = PList (map PStr names)" "netcdf_format s = PStr fmt"
      "output_file_prefix s = PStr p" "output_file_suffix s = PStr sfx"
      by (rule well_typed_fields)
    show ?thesis
      unfolding validate_typed[OF wt f] by (auto split: option.splits)
  qed
  have "(\<exists>m s'. validate env s = Some (Inl (TypeError m), s')) \<longleftrightarrow> \<not> well_typed s"
    using ill well by blast
  moreover have "well_typed s" if "\<exists>m s'. validate env s = Some (Inl (ValueError m), s')"
  proof (rule ccontr)
    assume "\<not> well_typed s"
    then obtain m where "validate env s = Some (Inl (TypeError m), s)"
      by (rule validate_ill_typed)
    with that show False by auto
  qed
  ultimately show ?thesis unfolding typed by blast
qed

theorem validate_type_error_iff_witness:
  "(\<exists>m s'. validate example_env ill_typed_specifier = Some (Inl (TypeError m), s'))
   \<and> well_typed empty_list_specifier"
  using validate_type_error_iff [of example_env ill_typed_specifier]
    validate_type_error_iff [of example_env empty_list_specifier]
    empty_list_validate
  by (simp add: ill_typed_specifier_def)

text \<open>
  Claim C5: on a well-typed instance \<open>validate()\<close> raises a \<open>ValueError\<close> if
  and only if the file list is empty, or a listed path is not an existing regular
  file, or the format is not one of the three valid ones, or the parent directory of
  the absolute prefix does not exist. The checks run in that order and the first
  violation decides the exception: the empty list; else the first listed path that is
  not a regular file, which the message quotes; else the format; else the directory.
\<close>

theorem validate_value_error_order:
  assumes "well_typed s"
    and "input_file_list s = PList (map PStr names)" and "netcdf_format s = PStr fmt"
    and "output_file_prefix s = PStr p"
  shows
    "((\<exists>m s'. validate env s = Some (Inl (ValueError m), s')) \<longleftrightarrow>
        (names = [] \<or> (\<exists>name \<in> set names. \<not> isfile env name)
         \<or> fmt \<notin> {''netcdf'', ''netcdf4'', ''netcdf4c''}
         \<or> \<not> isdir env (dirname (abspath env p))))
     \<and> (names = [] \<longrightarrow>
          validate env s
            = Some (Inl (ValueError ''There must be at least one input file given.''), s))
     \<and> (\<forall>i < length names.
          \<not> isfile env (names ! i) \<and> (\<forall>j < i. isfile env (names ! j)) \<longrightarrow>
          validate env s
            = Some (Inl (ValueError
                 (''Input file '' @ names ! i @ '' is not a regular file'')), s))
     \<and> (names \<noteq> [] \<and> (\<forall>name \<in> set names. isfile env name)
          \<and> fmt \<notin> {''netcdf'', ''netcdf4'', ''netcdf4c''} \<longrightarrow>
          validate env s
            = Some (Inl (ValueError
                 (''Output NetCDF file format '' @ fmt @ '' is not valid'')), s))
     \<and> (names \<noteq> [] \<and> (\<forall>name \<in> set names. isfile env name)
          \<and> fmt \<in> {''netcdf'', ''netcdf4'', ''netcdf4c''}
          \<and> \<not> isdir env (dirname (abspath env p)) \<longrightarrow>
          validate env s
            = Some (Inl (ValueError
                 (''Output directory '' @ dirname (abspath env p)
                  @ '' implied in output prefix '' @ p @ '' is not valid'')), s))"
proof -
  from assms(1) obtain sfx where sfx: "output_file_suffix s = PStr sfx"
    by (cases "output_file_suffix s") (auto simp: well_typed_def)
  note v = validate_typed[OF assms(1,2,3,4) sfx, of env]
  have fmts: "fmt \<in> set valid_formats \<longleftrightarrow> fmt \<in> {''netcdf'', ''netcdf4'', ''netcdf4c''}"
    by (auto simp: valid_formats_def)
  have none: "first_missing env names = None \<longleftrightarrow> (\<forall>name \<in> set names. isfile env name)"
    by (auto simp: first_missing_def find_None_iff)
  have first: "first_missing env names = Some (names ! i)"
    if "i < length names" "\<not> isfile env (names ! i)" "\<forall>j < i. isfile env (names ! j)" for i
    using that unfolding first_missing_def find_Some_iff by blast
  have iff: "(\<exists>m s'. validate env s = Some (Inl (ValueError m), s')) \<longleftrightarrow>
        (names = [] \<or> (\<exists>name \<in> set names. \<not> isfile env name)
         \<or> fmt \<notin> {''netcdf'', ''netcdf4'', ''netcdf4c''}
         \<or> \<not> isdir env (dirname (abspath env p)))"
  proof (cases "first_missing env names")
    case None
    then show ?thesis using none unfolding v fmts by auto
  next
    case (Some name)
    then have "\<exists>name \<in> set names. \<not> isfile env name" using none by auto
    then show ?thesis using Some unfolding v by auto
  qed
  have empty: "names = [] \<longrightarrow>
          validate env s
            = Some (Inl (ValueError ''There must be at least one input file given.''), s)"
    unfolding v by simp
  have missing: "\<forall>i < length names.
          \<not> isfile env (names ! i) \<and> (\<forall>j < i. isfile env (names ! j)) \<longrightarrow>
          validate env s
            = Some (Inl (ValueError
                 (''Input file '' @ names ! i @ '' is not a regular file'')), s)"
  proof (intro allI impI)
    fix i assume i: "i < length names"
      and "\<not> isfile env (names ! i) \<and> (\<forall>j < i. isfile env (names ! j))"
    then have "first_missing env names = Some (names ! i)" using first by blast
    moreover have "names \<noteq> []" using i by auto
    ultimately show "validate env s
            = Some (Inl (ValueError
                 (''Input file '' @ names ! i @ '' is not a regular file'')), s)"
      unfolding v by simp
  qed
  have format: "names \<noteq> [] \<and> (\<forall>name \<in> set names. isfile env name)
          \<and> fmt \<notin> {''netcdf'', ''netcdf4'', ''netcdf4c''} \<longrightarrow>
          validate env s
            = Some (Inl (ValueError
                 (''Output NetCDF file format '' @ fmt @ '' is not valid'')), s)"
    unfolding v using none fmts by auto
  have dir: "names \<noteq> [] \<and> (\<forall>name \<in> set names. isfile env name)
          \<and> fmt \<in> {''netcdf'', ''netcdf4'', ''netcdf4c''}
          \<and> \<not> isdir env (dirname (abspath env p)) \<longrightarrow>
          validate env s
            = Some (Inl (ValueError
                 (''Output directory '' @ dirname (abspath env p)
                  @ '' implied in output prefix '' @ p @ '' is not valid'')), s)"
    unfolding v using none fmts by auto
  from iff empty missing format dir show ?thesis by blast
qed

theorem validate_value_error_order_witness:
  "validate example_env missing_file_specifier
     = Some (Inl (ValueError ''Input file /data/c.nc is not a regular file''),
             missing_file_specifier)"
proof -
  let ?names = "[''/data/a.nc'', ''/data/c.nc'']"
  have wt: "well_typed missing_file_specifier" by code_simp
  have l: "input_file_list missing_file_specifier = PList (map PStr ?names)"
    and f: "netcdf_format missing_file_specifier = PStr ''netcdf4''"
    and p: "output_file_prefix missing_file_specifier = PStr ''relative/prefix_''"
    by (simp_all add: missing_file_specifier_def example_specifier_def)
  have i: "(1::nat) < length ?names" by simp
  have m: "\<not> isfile example_env (?names ! 1) \<and> (\<forall>j < 1. isfile example_env (?names ! j))"
    by (simp add: example_env_def)
  from validate_value_error_order [OF wt l f p, of example_env] i m
  have "validate example_env missing_file_specifier
     = Some (Inl (ValueError (''Input file '' @ ?names ! 1 @ '' is not a regular file'')),
             missing_file_specifier)"
    by blast
  then show ?thesis by simp
qed

subsection \<open>Validation: the two rewrites\<close>

text \<open>
  Claim C6: after a successful \<open>validate()\<close> the suffix ends in \<open>.nc\<close>. A
  suffix that ended in \<open>.nc\<close> is unchanged, any other has \<open>.nc\<close> appended, and
  no string in the suffix makes the call fail: had the instance held any other string
  as its suffix, \<open>validate()\<close> would have returned as well.
\<close>

theorem validate_suffix_nc:
  assumes "validate env s = Some (Inr (), s')" and "output_file_suffix s = PStr sfx"
  shows "(\<exists>t. output_file_suffix s' = PStr (t @ ''.nc''))
     \<and> ((\<exists>t. sfx = t @ ''.nc'') \<longrightarrow> output_file_suffix s' = PStr sfx)
     \<and> (\<not> (\<exists>t. sfx = t @ ''.nc'') \<longrightarrow> output_file_suffix s' = PStr (sfx @ ''.nc''))
     \<and> (\<forall>x. \<exists>s''. validate env (s\<lparr>output_file_suffix := PStr x\<rparr>) = Some (Inr (), s''))"
proof -
  have wt: "well_typed s" using assms(1) by (rule validate_returns_typed)
  then obtain names fmt p sfx' meta where
    f: "input_file_list s = PList (map PStr names)" "netcdf_format s = PStr fmt"
    "output_file_prefix s = PStr p" "output_file_suffix s = PStr sfx'"
    by (rule well_typed_fields)
  have s': "s' = normalised env s p sfx"
    using assms(1) f(3) assms(2) by (rule validate_returns_normalised(1))
  have sfx': "output_file_suffix s' = PStr (if last3 sfx \<noteq> ''.nc'' then sfx @ ''.nc'' else sfx)"
    unfolding s' by (simp add: normalised_def)
  have ends: "\<exists>t. output_file_suffix s' = PStr (t @ ''.nc'')"
    unfolding sfx' by (auto simp: last3_nc)
  have any: "\<exists>s''. validate env (s\<lparr>output_file_suffix := PStr x\<rparr>) = Some (Inr (), s'')" for x
  proof -
    let ?s = "s\<lparr>output_file_suffix := PStr x\<rparr>"
    have wt': "well_typed ?s" using wt by (simp add: well_typed_def)
    have ok: "validate env s = Some (Inr (), normalised env s p sfx)"
      using assms(1) s' by simp
    show ?thesis
      using ok unfolding validate_typed[OF wt f] 
      by (simp add: validate_typed[OF wt', of names fmt p x] f split: if_splits option.splits)
  qed
  show ?thesis using ends sfx' any by (simp add: last3_nc)
qed

theorem validate_suffix_nc_witness:
  "output_file_suffix example_validated = PStr ''out.nc''
   \<and> (\<exists>s''. validate example_env (example_specifier\<lparr>output_file_suffix := PStr ''out.nc''\<rparr>)
          = Some (Inr (), s'') \<and> output_file_suffix s'' = PStr ''out.nc'')"
proof -
  have a: "output_file_suffix example_specifier = PStr ''out''"
    by (simp add: example_specifier_def)
  have n: "\<not> (\<exists>t. ''out'' = t @ ''.nc'')" by simp
  from validate_suffix_nc [OF example_validate a] n
  have 1: "output_file_suffix example_validated = PStr ''out.nc''"
    and "\<exists>s''. validate example_env (example_specifier\<lparr>output_file_suffix := PStr ''out.nc''\<rparr>)
          = Some (Inr (), s'')"
    by auto
  then obtain s'' where
    v: "validate example_env (example_specifier\<lparr>output_file_suffix := PStr ''out.nc''\<rparr>)
          = Some (Inr (), s'')" by blast
  have "output_file_suffix s'' = PStr ''out.nc''"
    using validate_suffix_nc [OF v, of "''out.nc''"] by simp
  with 1 v show ?thesis by blast
qed

text \<open>
  Claim C7, as amended: for a string \<open>output_file_prefix\<close>, a successful
  \<open>validate()\<close> leaves in the attribute the absolute path of the original prefix
  (an absolute path indeed when the working directory is one), and on a well-typed
  instance \<open>validate()\<close> raises a \<open>ValueError\<close> when the parent directory of that
  absolute path does not exist.
\<close>

theorem validate_prefix_absolute:
  assumes "output_file_prefix s = PStr p"
  shows "(\<forall>s'. validate env s = Some (Inr (), s') \<longrightarrow>
            output_file_prefix s' = PStr (abspath env p))
     \<and> (isabs (getcwd env) \<longrightarrow> isabs (abspath env p))
     \<and> (well_typed s \<and> \<not> isdir env (dirname (abspath env p)) \<longrightarrow>
          (\<exists>m. validate env s = Some (Inl (ValueError m), s)))"
proof -
  have a: "output_file_prefix s' = PStr (abspath env p)"
    if v: "validate env s = Some (Inr (), s')" for s'
  proof -
    have "well_typed s" using v by (rule validate_returns_typed)
    then obtain sfx where sfx: "output_file_suffix s = PStr sfx"
      by (cases "output_file_suffix s") (auto simp: well_typed_def)
    have "s' = normalised env s p sfx"
      using v assms sfx by (rule validate_returns_normalised(1))
    then show ?thesis by (simp add: normalised_def)
  qed
  have b: "\<exists>m. validate env s = Some (Inl (ValueError m), s)"
    if wt: "well_typed s" and nd: "\<not> isdir env (dirname (abspath env p))"
  proof -
    from wt obtain names fmt p' sfx meta where
      f: "input_file_list s = PList (map PStr names)" "netcdf_format s = PStr fmt"
      "output_file_prefix s = PStr p'" "output_file_suffix s = PStr sfx"
      by (rule well_typed_fields)
    with assms have [simp]: "p' = p" by simp
    show ?thesis
      unfolding validate_typed[OF wt f] using nd by (auto split: option.splits)
  qed
  show ?thesis using a b isabs_abspath by blast
qed

theorem validate_prefix_absolute_witness:
  "output_file_prefix example_validated = PStr ''/home/user/relative/prefix_''
   \<and> isabs ''/home/user/relative/prefix_''
   \<and> (\<exists>m. validate example_env nodir_specifier = Some (Inl (ValueError m), nodir_specifier))"
proof -
  have wt: "well_typed nodir_specifier" by code_simp
  have cwd: "isabs (getcwd example_env)" by (simp add: example_env_def)
  have 1: "output_file_prefix example_specifier = PStr ''relative/prefix_''"
    by (simp add: example_specifier_def)
  have 2: "output_file_prefix nodir_specifier = PStr ''/nodir/prefix_''"
    by (simp add: nodir_specifier_def)
  show ?thesis
    using validate_prefix_absolute [OF 1, of example_env]
      validate_prefix_absolute [OF 2, of example_env]
      example_validate wt nodir cwd
    by (simp add: example_abspath)
qed

text \<open>
  Claim C7 as first stated promises the \<open>ValueError\<close> for every string prefix.
  Here the prefix is a string and the parent directory of its absolute path does not
  exist, and the file list is not a list: the type check raises a \<open>TypeError\<close>
  before the directory is looked at.
\<close>

theorem validate_prefix_type_error_first:
  "output_file_prefix ill_typed_specifier = PStr ''/nodir/prefix_''
   \<and> \<not> isdir example_env (dirname (abspath example_env ''/nodir/prefix_''))
   \<and> validate example_env ill_typed_specifier
       = Some (Inl (TypeError ''Input file list must be a list''), ill_typed_specifier)"
  using ill_typed_validate nodir by (simp add: ill_typed_specifier_def)

text \<open>
  Claim C8: \<open>validate()\<close> is idempotent. In a file system and working directory
  that stay the same (the working directory an absolute path, as \<open>os.getcwd()\<close>
  returns it), a second call on an instance that the first call has accepted raises
  nothing and changes no attribute.
\<close>

theorem validate_idempotent:
  assumes "isabs (getcwd env)" and "validate env s = Some (Inr (), s')"
  shows "validate env s' = Some (Inr (), s')"
proof -
  have wt: "well_typed s" using assms(2) by (rule validate_returns_typed)
  then obtain names fmt p sfx meta where
    f: "input_file_list s = PList (map PStr names)" "netcdf_format s = PStr fmt"
    "output_file_prefix s = PStr p" "output_file_suffix s = PStr sfx"
    by (rule well_typed_fields)
  define p' where "p' = abspath env p"
  define sfx' where "sfx' = (if last3 sfx \<noteq> ''.nc'' then sfx @ ''.nc'' else sfx)"
  have s': "s' = normalised env s p sfx"
    and dir: "isdir env (dirname (abspath env p))"
    using validate_returns_normalised[OF assms(2) f(3,4)] by simp_all
  have ok: "validate env s = Some (Inr (), normalised env s p sfx)"
    using assms(2) s' by simp
  have checks: "names \<noteq> []" "first_missing env names = None" "fmt \<in> set valid_formats"
    using ok unfolding validate_typed[OF wt f]
    by (auto split: if_splits option.splits)
  have wt': "well_typed s'" using wt unfolding s' by (simp add: well_typed_def normalised_def)
  have f': "input_file_list s' = PList (map PStr names)" "netcdf_format s' = PStr fmt"
    "output_file_prefix s' = PStr p'" "output_file_suffix s' = PStr sfx'"
    unfolding s' p'_def sfx'_def using f by (simp_all add: normalised_def)
  have p'_fixed: "abspath env p' = p'"
    unfolding p'_def using assms(1) by (rule abspath_idem)
  have "last3 sfx' = ''.nc''" unfolding sfx'_def by (auto simp: last3_nc)
  then have "normalised env s' p' sfx' = s'"
    using f'(3,4) by (simp add: normalised_def p'_fixed)
  moreover have "isdir env (dirname (abspath env p'))"
    using dir unfolding p'_fixed by (simp add: p'_def)
  ultimately show ?thesis
    using checks by (simp add: validate_typed[OF wt' f'])
qed

theorem validate_idempotent_witness:
  "isabs (getcwd example_env)
   \<and> validate example_env example_specifier = Some (Inr (), example_validated)
   \<and> validate example_env example_validated = Some (Inr (), example_validated)"
proof -
  have cwd: "isabs (getcwd example_env)" by (simp add: example_env_def)
  show ?thesis
    using cwd example_validate validate_idempotent [OF cwd example_validate] by simp
qed

subsection \<open>Validation: what it leaves alone\<close>

text \<open>
  Claim C9: every call of \<open>validate()\<close>, whether it raises or returns, leaves
  \<open>input_file_list\<close>, \<open>netcdf_format\<close>, \<open>specifier_type\<close> and
  \<open>time_variant_metadata\<close> as they were; the instance after the call differs from
  the one before in \<open>output_file_prefix\<close> and \<open>output_file_suffix\<close> at most.
\<close>

theorem validate_frame:
  "\<exists>r s'. validate env s = Some (r, s')
     \<and> input_file_list s' = input_file_list s
     \<and> netcdf_format s' = netcdf_format s
     \<and> specifier_type s' = specifier_type s
     \<and> time_variant_metadata s' = time_variant_metadata s
     \<and> s' = s\<lparr>output_file_prefix := output_file_prefix s',
              output_file_suffix := output_file_suffix s'\<rparr>"
proof -
  obtain r s' where v: "validate env s = Some (r, s')"
    using validate_modelled by blast
  have "\<exists>p sfx. s' = s\<lparr>output_file_prefix := p, output_file_suffix := sfx\<rparr>"
  proof (cases r)
    case (Inl e)
    with v have "s' = s" by (auto dest: validate_raises_unchanged)
    then have "s' = s\<lparr>output_file_prefix := output_file_prefix s,
                       output_file_suffix := output_file_suffix s\<rparr>" by simp
    then show ?thesis by blast
  next
    case (Inr u)
    with v have v': "validate env s = Some (Inr (), s')" by simp
    then have "well_typed s" by (rule validate_returns_typed)
    then obtain names fmt p sfx meta where
      f: "output_file_prefix s = PStr p" "output_file_suffix s = PStr sfx"
      by (rule well_typed_fields)
    have "s' = normalised env s p sfx" using v' f by (rule validate_returns_normalised(1))
    then show ?thesis unfolding normalised_def by blast
  qed
  then obtain p sfx where "s' = s\<lparr>output_file_prefix := p, output_file_suffix := sfx\<rparr>"
    by blast
  then show ?thesis using v by simp
qed

text \<open>
  Claim C10: \<open>validate()\<close> is atomic on failure. Whenever it raises, a
  \<open>TypeError\<close> or a \<open>ValueError\<close>, every attribute holds the value it held
  before the call.
\<close>

theorem validate_atomic_on_failure:
  assumes "validate env s = Some (Inl e, s')"
  shows "s' = s"
  using assms by (rule validate_raises_unchanged)

theorem validate_atomic_on_failure_witness:
  "\<exists>e s'. validate example_env nodir_specifier = Some (Inl e, s') \<and> s' = nodir_specifier"
  using validate_atomic_on_failure [OF nodir_validate] nodir_validate by simp

end
